theory Spec2Isabelle
  imports Main "HOL-Library.AList"
begin

section \<open>ResourceCache: a reference-counted registry of resource loaders\<close>

text \<open>
  The development follows \<open>ResourceCache\<close> (the second document of
  \<open>Source/Core/EllipsoidGeometry.js\<close>): the registry \<open>ResourceCache.cacheEntries\<close>,
  the constructor \<open>CacheEntry\<close>, the operations \<open>get\<close>, \<open>load\<close>, \<open>unload\<close>,
  the typed constructors \<open>loadExternalBuffer\<close> and \<open>loadVertexBuffer\<close>, and
  \<open>clearForSpecs\<close>. The checks between the \<open>includeStart('debug')\<close> and
  \<open>includeEnd('debug')\<close> pragmas are part of the source as written and are part of the
  model. The file is a module (\<open>import\<close>, \<open>export default\<close>), so its code is strict.
\<close>

subsection \<open>Values, loaders and cache entries\<close>

text \<open>
  The JavaScript values considered for a cache key: a string, as documented, or one of the
  simple values a caller may pass by mistake. \<open>typeof\<close> is the language's operator;
  \<open>toPropertyKey\<close> is the conversion \<open>cacheEntries[cacheKey]\<close> applies to a value
  that is used as a property name.
\<close>

datatype jsval = JUndefined | JNull | JBoolean bool | JString string

fun typeof :: "jsval \<Rightarrow> string" where
  "typeof JUndefined = ''undefined''"
| "typeof JNull = ''object''"
| "typeof (JBoolean b) = ''boolean''"
| "typeof (JString s) = ''string''"

fun toPropertyKey :: "jsval \<Rightarrow> string" where
  "toPropertyKey JUndefined = ''undefined''"
| "toPropertyKey JNull = ''null''"
| "toPropertyKey (JBoolean b) = (if b then ''true'' else ''false'')"
| "toPropertyKey (JString s) = s"

text \<open>
  A resource loader is an object: it has an identity (\<open>loaderId\<close>, so that two instances
  with the same key are different objects) and the property \<open>cacheKey\<close>. Its methods
  \<open>load()\<close> and \<open>destroy()\<close> belong to the loader classes, which are external to the
  cache; a call of one of them is recorded as an event.
\<close>

record loader =
  loaderId :: nat
  cacheKey :: jsval

datatype event = Constructed loader | LoadCalled loader | DestroyCalled loader

text \<open>\<open>function CacheEntry(options)\<close>: the fields of a cache entry.\<close>

record CacheEntry =
  referenceCount :: int
  resourceLoader :: loader
  keepResident :: bool

text \<open>
  The errors thrown. \<open>CheckFailed name\<close> is the error of a failed \<open>Check.typeOf\<close> call
  for the argument \<open>name\<close>; \<open>DeveloperError msg\<close> is \<open>throw new DeveloperError(msg)\<close>.
  Both are contract violations. \<open>TypeError\<close> is the language's error for an assignment,
  in strict code, to a property of a primitive value.
\<close>

datatype error = CheckFailed string | DeveloperError string | TypeError

text \<open>
  The state.
  \<^item> \<open>cacheEntries\<close>: the own properties of the object \<open>ResourceCache.cacheEntries\<close>, in
    the order of their creation. An assignment \<open>cacheEntries[k] = v\<close> is \<open>AList.update\<close>
    (in place, or appended when \<open>k\<close> is new), \<open>delete cacheEntries[k]\<close> is
    \<open>AList.delete\<close>.
  \<^item> \<open>events\<close>: the calls made on loaders so far.
  \<^item> \<open>allocated\<close>: the number of loader objects constructed so far, which is the identity
    of the next one.
  \<^item> \<open>nanCounted\<close>: the registry is a plain object \<open>{}\<close>, so a lookup also finds what it
    inherits from \<open>Object.prototype\<close>. This is the set of the inherited members, by name,
    on whose value a \<open>referenceCount\<close> has been written; what is written there is always
    \<open>NaN\<close> (\<open>undefined + 1\<close>, \<open>undefined - 1\<close>, \<open>NaN + 1\<close>, \<open>NaN - 1\<close>).
\<close>

record world =
  cacheEntries :: "(string \<times> CacheEntry) list"
  events :: "event list"
  allocated :: nat
  nanCounted :: "string set"

text \<open>
  An operation returns its result, or the error it throws, together with the state it
  leaves behind: what was mutated before a throw stays mutated.
\<close>

type_synonym 'a outcome = "(error + 'a) \<times> world"

subsection \<open>Reading the registry\<close>

text \<open>
  The properties of \<open>Object.prototype\<close> in a standard environment: eleven functions and
  the accessor \<open>__proto__\<close>, which answers \<open>Object.prototype\<close> itself for the
  registry. None of them is enumerable.
\<close>

definition objectPrototypeMembers :: "string list" where
  "objectPrototypeMembers =
     [''constructor'', ''__defineGetter__'', ''__defineSetter__'', ''hasOwnProperty'',
      ''__lookupGetter__'', ''__lookupSetter__'', ''isPrototypeOf'', ''propertyIsEnumerable'',
      ''toString'', ''valueOf'', ''__proto__'', ''toLocaleString'']"

text \<open>
  What \<open>ResourceCache.cacheEntries[key]\<close> evaluates to: an entry of the registry
  (\<open>Own\<close>), a built-in object reached through the prototype (\<open>InheritedObject\<close>, named
  by the property), the number \<open>NaN\<close> (\<open>InheritedNumber\<close>: the property
  \<open>referenceCount\<close> of \<open>Object.prototype\<close>, once a count has been written on the value
  of \<open>__proto__\<close>), or \<open>undefined\<close> (\<open>None\<close>). An own property shadows an
  inherited one.
\<close>

datatype slot = Own CacheEntry | InheritedObject string | InheritedNumber

definition inheritedSlot :: "world \<Rightarrow> string \<Rightarrow> slot option" where
  "inheritedSlot w key =
     (if key \<in> set objectPrototypeMembers then Some (InheritedObject key)
      else if key = ''referenceCount'' \<and> ''__proto__'' \<in> nanCounted w then Some InheritedNumber
      else None)"

definition registryGet :: "world \<Rightarrow> string \<Rightarrow> slot option" where
  "registryGet w key =
     (case map_of (cacheEntries w) key of
        Some cacheEntry \<Rightarrow> Some (Own cacheEntry)
      | None \<Rightarrow> inheritedSlot w key)"

subsection \<open>Helpers of the library\<close>

text \<open>
  Modelled from the spec: \<open>defaultValue.js\<close> and \<open>defined.js\<close> are not among the
  sources. The spec writes \<open>register(loader, keepResident=false)\<close>: an argument that is
  not given takes the default, and \<open>defined\<close> tells whether a value is there.
  \<open>None\<close> is the value \<open>undefined\<close>.
\<close>

definition defaultValue :: "'a option \<Rightarrow> 'a \<Rightarrow> 'a" where
  "defaultValue a b = (case a of Some x \<Rightarrow> x | None \<Rightarrow> b)"

definition defined :: "'a option \<Rightarrow> bool" where
  "defined a = (a \<noteq> None)"

text \<open>
  \<open>Check.js\<close> is not among the sources. The calls \<open>Check.typeOf.string(name, v)\<close> in
  \<open>get\<close> and \<open>load\<close> are the only guard on the key, and the method is read as it is
  named, a test of the JavaScript type: it passes when \<open>typeof v\<close> is \<open>string\<close> and
  throws otherwise. \<open>Check_typeOf_string v\<close> says that the call passes.
  \<open>Check.typeOf.object(name, v)\<close> is applied to an argument that is an object or is
  missing (\<open>None\<close>, the value \<open>undefined\<close>): it passes on an object.
\<close>

definition Check_typeOf_string :: "jsval \<Rightarrow> bool" where
  "Check_typeOf_string v = (typeof v = ''string'')"

definition Check_typeOf_object :: "'a option \<Rightarrow> bool" where
  "Check_typeOf_object v = (v \<noteq> None)"

subsection \<open>The operations\<close>

definition new_CacheEntry :: "loader \<Rightarrow> bool option \<Rightarrow> CacheEntry" where
  "new_CacheEntry l kr =
     \<lparr>referenceCount = 1, resourceLoader = l, keepResident = defaultValue kr False\<rparr>"

text \<open>
  \<open>ResourceCache.get(cacheKey)\<close>; the result \<open>None\<close> is \<open>undefined\<close>. On a built-in
  object \<open>++cacheEntry.referenceCount\<close> writes \<open>NaN\<close> and \<open>cacheEntry.resourceLoader\<close>
  is \<open>undefined\<close>; on the number \<open>NaN\<close> the assignment throws.
\<close>

definition get :: "jsval \<Rightarrow> world \<Rightarrow> (loader option) outcome" where
  "get key w =
     (if \<not> Check_typeOf_string key then (Inl (CheckFailed ''cacheKey''), w)
      else
        (case registryGet w (toPropertyKey key) of
           None \<Rightarrow> (Inr None, w)
         | Some (Own cacheEntry) \<Rightarrow>
             (Inr (Some (resourceLoader cacheEntry)),
              w\<lparr>cacheEntries := AList.update (toPropertyKey key)
                   (cacheEntry\<lparr>referenceCount := referenceCount cacheEntry + 1\<rparr>)
                   (cacheEntries w)\<rparr>)
         | Some (InheritedObject name) \<Rightarrow>
             (Inr None, w\<lparr>nanCounted := insert name (nanCounted w)\<rparr>)
         | Some InheritedNumber \<Rightarrow> (Inl TypeError, w)))"

text \<open>
  \<open>ResourceCache.load(options)\<close> with \<open>options.resourceLoader\<close> (here
  \<open>given\<close>) and \<open>options.keepResident\<close>, each present or not.
\<close>

definition load :: "loader option \<Rightarrow> bool option \<Rightarrow> world \<Rightarrow> unit outcome" where
  "load given kr_opt w =
     (let kr = defaultValue kr_opt False in
      if \<not> Check_typeOf_object given then
        (Inl (CheckFailed ''options.resourceLoader''), w)
      else
        let key = cacheKey (the given) in
        if \<not> Check_typeOf_string key then
          (Inl (CheckFailed ''options.resourceLoader.cacheKey''), w)
        else if defined (registryGet w (toPropertyKey key)) then
          (Inl (DeveloperError
             (''Resource with this cacheKey is already in the cache: '' @ toPropertyKey key)), w)
        else
          (Inr (),
           w\<lparr>cacheEntries :=
                AList.update (toPropertyKey key) (new_CacheEntry (the given) (Some kr))
                  (cacheEntries w),
             events := events w @ [LoadCalled (the given)]\<rparr>))"

text \<open>
  What \<open>resourceLoader.destroy()\<close> does is the loader's business: it is a parameter of
  the operations that call it. \<open>recorded\<close> is the \<open>destroy()\<close> of a loader that has
  nothing to release through the cache: the call is recorded and returns.
\<close>

type_synonym destroyMethod = "loader \<Rightarrow> world \<Rightarrow> unit outcome"

definition recorded :: destroyMethod where
  "recorded l w = (Inr (), w\<lparr>events := events w @ [DestroyCalled l]\<rparr>)"

text \<open>
  \<open>ResourceCache.unload(resourceLoader)\<close>. The key is not type-checked here; the
  decrement is written to the entry before the test that follows it, \<open>destroy()\<close> is
  called on the argument, and the \<open>delete\<close> is reached when \<open>destroy()\<close> returns. On a
  built-in object \<open>cacheEntry.referenceCount === 0\<close> is false, the decrement writes
  \<open>NaN\<close> and the last test is false; on the number \<open>NaN\<close> the decrement throws.
\<close>

definition unloadWith :: "destroyMethod \<Rightarrow> loader option \<Rightarrow> world \<Rightarrow> unit outcome" where
  "unloadWith destroyOf given w =
     (if \<not> Check_typeOf_object given then (Inl (CheckFailed ''resourceLoader''), w)
      else
        let key = toPropertyKey (cacheKey (the given)) in
        (case registryGet w key of
           None \<Rightarrow> (Inl (DeveloperError (''Resource is not in the cache: '' @ key)), w)
         | Some (Own cacheEntry) \<Rightarrow>
             if referenceCount cacheEntry = 0 then
               (Inl (DeveloperError ''Cannot unload resource that has no references.''), w)
             else
               let e = cacheEntry\<lparr>referenceCount := referenceCount cacheEntry - 1\<rparr>;
                   w1 = w\<lparr>cacheEntries := AList.update key e (cacheEntries w)\<rparr>
               in if referenceCount e = 0 \<and> \<not> keepResident e then
                    (case destroyOf (the given) w1 of
                       (Inl err, w2) \<Rightarrow> (Inl err, w2)
                     | (Inr u, w2) \<Rightarrow>
                         (Inr (), w2\<lparr>cacheEntries := AList.delete key (cacheEntries w2)\<rparr>))
                  else (Inr (), w1)
         | Some (InheritedObject name) \<Rightarrow>
             (Inr (), w\<lparr>nanCounted := insert name (nanCounted w)\<rparr>)
         | Some InheritedNumber \<Rightarrow> (Inl TypeError, w)))"

text \<open>\<open>unload\<close> of a loader whose \<open>destroy()\<close> has nothing to release.\<close>

definition unload :: "loader option \<Rightarrow> world \<Rightarrow> unit outcome" where
  "unload = unloadWith recorded"

text \<open>
  Modelled from the spec: the loader classes are not among the sources. By section 4.2,
  \<open>destroy()\<close> must "release any GPU/CPU resources it directly owns" and "for every
  dependency entry it acquired from the cache during loading, call \<open>unload\<close> on that
  dependency"; the source hands the cache to the loaders it constructs
  (\<open>resourceCache: ResourceCache\<close>) for this. \<open>Holding l deps\<close> is the loader \<open>l\<close>
  together with the dependencies it acquired, each with what it acquired in turn; its
  \<open>destroy()\<close> is recorded and then releases them in order.
\<close>

datatype holding = Holding loader "holding list"

fun destroy :: "holding \<Rightarrow> world \<Rightarrow> unit outcome"
  and release :: "holding list \<Rightarrow> world \<Rightarrow> unit outcome" where
  "destroy (Holding l deps) w = release deps (w\<lparr>events := events w @ [DestroyCalled l]\<rparr>)"
| "release [] w = (Inr (), w)"
| "release (Holding d ddeps # rest) w =
     (case unloadWith (\<lambda>x w'. destroy (Holding d ddeps) w') (Some d) w of
        (Inl err, w1) \<Rightarrow> (Inl err, w1)
      | (Inr u, w1) \<Rightarrow> release rest w1)"

text \<open>The \<open>destroy()\<close> of the loaders, given what each of them holds.\<close>

definition destroyHolding :: "(loader \<Rightarrow> holding list) \<Rightarrow> destroyMethod" where
  "destroyHolding held l w = destroy (Holding l (held l)) w"

subsection \<open>The typed constructors\<close>

text \<open>
  Modelled from the spec: \<open>BufferLoader.js\<close> and \<open>GltfVertexBufferLoader.js\<close> are not
  among the sources. The typed constructor "constructs the concrete loader instance for
  that kind" with "the previously-derived cache key"; the new object has a fresh identity.
\<close>

definition new_BufferLoader :: "jsval \<Rightarrow> world \<Rightarrow> loader \<times> world" where
  "new_BufferLoader key w =
     (let l = \<lparr>loaderId = allocated w, cacheKey = key\<rparr>
      in (l, w\<lparr>events := events w @ [Constructed l], allocated := Suc (allocated w)\<rparr>))"

definition new_GltfVertexBufferLoader :: "jsval \<Rightarrow> world \<Rightarrow> loader \<times> world" where
  "new_GltfVertexBufferLoader key w =
     (let l = \<lparr>loaderId = allocated w, cacheKey = key\<rparr>
      in (l, w\<lparr>events := events w @ [Constructed l], allocated := Suc (allocated w)\<rparr>))"

text \<open>
  The argument of \<open>loadExternalBuffer\<close>: \<open>options.resource\<close> (an object, or \<open>None\<close>
  when it is missing) and \<open>options.keepResident\<close>.
\<close>

record 'r bufferOptions =
  opt_resource :: "'r option"
  opt_keepResident :: "bool option"

text \<open>
  \<open>ResourceCache.loadExternalBuffer(options)\<close>. \<open>ResourceCacheKey.js\<close> is not among
  the sources: the key deriver \<open>getExternalBufferCacheKey\<close> is a parameter.
\<close>

definition loadExternalBuffer ::
  "('r \<Rightarrow> jsval) \<Rightarrow> 'r bufferOptions \<Rightarrow> world \<Rightarrow> loader outcome" where
  "loadExternalBuffer getExternalBufferCacheKey opts w =
     (let kr = defaultValue (opt_keepResident opts) False in
      if \<not> Check_typeOf_object (opt_resource opts) then
        (Inl (CheckFailed ''options.resource''), w)
      else
        let key = getExternalBufferCacheKey (the (opt_resource opts)) in
          (case get key w of
             (Inl err, w1) \<Rightarrow> (Inl err, w1)
           | (Inr (Some bufferLoader), w1) \<Rightarrow> (Inr bufferLoader, w1)
           | (Inr None, w1) \<Rightarrow>
               (case new_BufferLoader key w1 of
                  (bufferLoader, w2) \<Rightarrow>
                    (case load (Some bufferLoader) (Some kr) w2 of
                       (Inl err, w3) \<Rightarrow> (Inl err, w3)
                     | (Inr u, w3) \<Rightarrow> (Inr bufferLoader, w3)))))"

text \<open>
  The argument of \<open>loadVertexBuffer\<close>. The objects (\<open>gltf\<close>, the two resources, the
  Draco extension object) are values of one type, each present or missing;
  \<open>options.asynchronous\<close> is only handed on to the loader.
\<close>

record 'o vertexBufferOptions =
  vb_gltf :: "'o option"
  vb_gltfResource :: "'o option"
  vb_baseResource :: "'o option"
  vb_bufferViewId :: "int option"
  vb_draco :: "'o option"
  vb_dracoAttributeSemantic :: "string option"
  vb_keepResident :: "bool option"
  vb_asynchronous :: "bool option"

text \<open>
  \<open>ResourceCache.loadVertexBuffer(options)\<close>, the key deriver
  \<open>getVertexBufferCacheKey\<close> a parameter. Every other call of \<open>Check.typeOf\<close> in the
  file passes the name and then the value. The two calls in the branch \<open>if (hasDraco)\<close>
  pass one argument, \<open>Check.typeOf.object(draco)\<close> and
  \<open>Check.typeOf.string(dracoAttributeSemantic)\<close>: the object and the string stand where
  the name goes, and the value that is tested is missing, \<open>undefined\<close>. The name in the
  error of the first is the object converted to a string.
\<close>

definition loadVertexBuffer ::
  "('o vertexBufferOptions \<Rightarrow> jsval) \<Rightarrow> 'o vertexBufferOptions \<Rightarrow> world \<Rightarrow> loader outcome"
  where
  "loadVertexBuffer getVertexBufferCacheKey opts w =
     (let kr = defaultValue (vb_keepResident opts) False in
      if \<not> Check_typeOf_object (vb_gltf opts) then (Inl (CheckFailed ''options.gltf''), w)
      else if \<not> Check_typeOf_object (vb_gltfResource opts) then
        (Inl (CheckFailed ''options.gltfResource''), w)
      else if \<not> Check_typeOf_object (vb_baseResource opts) then
        (Inl (CheckFailed ''options.baseResource''), w)
      else
        let hasBufferViewId = defined (vb_bufferViewId opts);
            hasDraco = defined (vb_draco opts);
            hasDracoAttributeSemantic = defined (vb_dracoAttributeSemantic opts)
        in
        if hasBufferViewId = hasDraco then
          (Inl (DeveloperError
             ''One of options.bufferViewId and options.draco must be defined.''), w)
        else if hasDraco \<and> \<not> hasDracoAttributeSemantic then
          (Inl (DeveloperError
             (''When options.draco is defined options.dracoAttributeSemantic '' @
              ''must also be defined.'')), w)
        else if hasDraco \<and> \<not> Check_typeOf_object (None :: 'o option) then
          (Inl (CheckFailed ''[object Object]''), w)
        else if hasDraco \<and> \<not> Check_typeOf_string JUndefined then
          (Inl (CheckFailed (the (vb_dracoAttributeSemantic opts))), w)
        else
          let key = getVertexBufferCacheKey opts in
          (case get key w of
             (Inl err, w1) \<Rightarrow> (Inl err, w1)
           | (Inr (Some vertexBufferLoader), w1) \<Rightarrow> (Inr vertexBufferLoader, w1)
           | (Inr None, w1) \<Rightarrow>
               (case new_GltfVertexBufferLoader key w1 of
                  (vertexBufferLoader, w2) \<Rightarrow>
                    (case load (Some vertexBufferLoader) (Some kr) w2 of
                       (Inl err, w3) \<Rightarrow> (Inl err, w3)
                     | (Inr u, w3) \<Rightarrow> (Inr vertexBufferLoader, w3)))))"

subsection \<open>\<open>clearForSpecs\<close>\<close>

text \<open>
  The keys \<open>for (var cacheKey in cacheEntries)\<close> visits: the own keys that are array
  indices (canonical decimal numerals below \<open>2^32 - 1\<close>) in ascending order, then the
  other own keys in the order of their creation, then the enumerable keys the object
  inherits, which is \<open>referenceCount\<close> once it has been written on \<open>Object.prototype\<close>.
\<close>

definition isDigit :: "char \<Rightarrow> bool" where
  "isDigit c = (c \<in> set ''0123456789'')"

fun position :: "'a \<Rightarrow> 'a list \<Rightarrow> nat" where
  "position x [] = 0"
| "position x (y # ys) = (if x = y then 0 else Suc (position x ys))"

definition decimalValue :: "string \<Rightarrow> nat" where
  "decimalValue s = foldl (\<lambda>n c. 10 * n + position c ''0123456789'') 0 s"

definition isArrayIndex :: "string \<Rightarrow> bool" where
  "isArrayIndex s =
     (s \<noteq> [] \<and> list_all isDigit s \<and> (s = ''0'' \<or> hd s \<noteq> CHR ''0'') \<and>
      decimalValue s < 2 ^ 32 - 1)"

definition forInKeys :: "world \<Rightarrow> string list" where
  "forInKeys w =
     (let own = map fst (cacheEntries w) in
      sort_key decimalValue (filter isArrayIndex own) @
      filter (\<lambda>k. \<not> isArrayIndex k) own @
      (if ''__proto__'' \<in> nanCounted w \<and> ''referenceCount'' \<notin> set own
       then [''referenceCount''] else []))"

text \<open>
  \<open>ResourceCache.clearForSpecs()\<close>, the \<open>destroy()\<close> of the loaders a parameter. The
  loop skips a key that is not an own property (\<open>hasOwnProperty\<close>), and a key that was
  deleted before its turn is not visited. When \<open>destroy()\<close> throws, the loop ends there
  and the \<open>delete\<close> of that key is not reached.
\<close>

fun clearLoop :: "destroyMethod \<Rightarrow> string list \<Rightarrow> world \<Rightarrow> unit outcome" where
  "clearLoop destroyOf [] w = (Inr (), w)"
| "clearLoop destroyOf (key # keys) w =
     (case map_of (cacheEntries w) key of
        None \<Rightarrow> clearLoop destroyOf keys w
      | Some cacheEntry \<Rightarrow>
          (case destroyOf (resourceLoader cacheEntry) w of
             (Inl err, w1) \<Rightarrow> (Inl err, w1)
           | (Inr u, w1) \<Rightarrow>
               clearLoop destroyOf keys
                 (w1\<lparr>cacheEntries := AList.delete key (cacheEntries w1)\<rparr>)))"

definition clearForSpecs :: "destroyMethod \<Rightarrow> world \<Rightarrow> unit outcome" where
  "clearForSpecs destroyOf w = clearLoop destroyOf (forInKeys w) w"

subsection \<open>Sequences of calls\<close>

text \<open>
  \<open>callEach f xs w\<close> makes the calls \<open>f x\<close> for the arguments \<open>xs\<close> one after the
  other, starting in the state \<open>w\<close>, and collects what each call returned or threw.
\<close>

fun callEach ::
  "('a \<Rightarrow> world \<Rightarrow> 'b outcome) \<Rightarrow> 'a list \<Rightarrow> world \<Rightarrow> (error + 'b) list \<times> world" where
  "callEach f [] w = ([], w)"
| "callEach f (x # xs) w =
     (case f x w of (r, w1) \<Rightarrow> (case callEach f xs w1 of (rs, w2) \<Rightarrow> (r # rs, w2)))"

text \<open>
  A consumer's call of \<open>get\<close> or \<open>unload\<close>; \<open>performAll\<close> runs a sequence of them
  and keeps the state, whatever each call returned or threw.
\<close>

datatype call = Get jsval | Unload loader

fun perform :: "call \<Rightarrow> world \<Rightarrow> world" where
  "perform (Get key) w = snd (get key w)"
| "perform (Unload l) w = snd (unload (Some l) w)"

fun performAll :: "call list \<Rightarrow> world \<Rightarrow> world" where
  "performAll [] w = w"
| "performAll (c # cs) w = performAll cs (perform c w)"

subsection \<open>Example states\<close>

definition emptyWorld :: world where
  "emptyWorld = \<lparr>cacheEntries = [], events = [], allocated = 0, nanCounted = {}\<rparr>"

definition loaderA :: loader where
  "loaderA = \<lparr>loaderId = 0, cacheKey = JString ''a''\<rparr>"

definition loaderA' :: loader where
  "loaderA' = \<lparr>loaderId = 1, cacheKey = JString ''a''\<rparr>"

definition loaderB :: loader where
  "loaderB = \<lparr>loaderId = 2, cacheKey = JString ''b''\<rparr>"

definition entryOf :: "int \<Rightarrow> loader \<Rightarrow> bool \<Rightarrow> CacheEntry" where
  "entryOf n l kr = \<lparr>referenceCount = n, resourceLoader = l, keepResident = kr\<rparr>"

definition worldOf :: "(string \<times> CacheEntry) list \<Rightarrow> world" where
  "worldOf reg = \<lparr>cacheEntries = reg, events = [], allocated = 3, nanCounted = {}\<rparr>"

definition pinnedCalls :: "call list" where
  "pinnedCalls = [Unload loaderA, Unload loaderA, Get (JString ''a''), Unload loaderA,
                  Unload loaderA']"



text \<open>A loader whose key names a member of \<open>Object.prototype\<close>.\<close>

definition loaderC :: loader where
  "loaderC = \<lparr>loaderId = 5, cacheKey = JString ''constructor''\<rparr>"

text \<open>
  A buffer view loader and a vertex buffer loader that acquired it as its dependency, and
  the state after a consumer registered the buffer view, the vertex buffer was registered
  and, loading, acquired the buffer view with \<open>get\<close>.
\<close>

definition loaderBV :: loader where
  "loaderBV = \<lparr>loaderId = 6, cacheKey = JString ''bv''\<rparr>"

definition loaderVB :: loader where
  "loaderVB = \<lparr>loaderId = 7, cacheKey = JString ''vb''\<rparr>"

definition vertexHolds :: "loader \<Rightarrow> holding list" where
  "vertexHolds l = (if l = loaderVB then [Holding loaderBV []] else [])"

definition dependentWorld :: world where
  "dependentWorld =
     snd (get (JString ''bv'')
       (snd (load (Some loaderVB) None (snd (load (Some loaderBV) None emptyWorld)))))"

text \<open>A request for a Draco vertex buffer, all its fields in place.\<close>

definition dracoOptions :: "unit vertexBufferOptions" where
  "dracoOptions =
     \<lparr>vb_gltf = Some (), vb_gltfResource = Some (), vb_baseResource = Some (),
      vb_bufferViewId = None, vb_draco = Some (),
      vb_dracoAttributeSemantic = Some ''POSITION'',
      vb_keepResident = None, vb_asynchronous = None\<rparr>"

definition exampleVertexKey :: "unit vertexBufferOptions \<Rightarrow> jsval" where
  "exampleVertexKey opts = JString ''vertex-buffer:draco:POSITION''"


section \<open>Properties of the operations\<close>

subsection \<open>One call\<close>

lemma update_absent: "map_of al k = None \<Longrightarrow> AList.update k v al = al @ [(k, v)]"
  by (induction al) (auto split: if_splits)

lemma update_appended:
  "map_of al k = None \<Longrightarrow> AList.update k v (al @ [(k, v0)]) = al @ [(k, v)]"
  by (induction al) (auto split: if_splits)

lemma registryGet_own:
  "map_of (cacheEntries w) k = Some e \<Longrightarrow> registryGet w k = Some (Own e)"
  by (simp add: registryGet_def)

lemma registryGet_none:
  "registryGet w k = None \<Longrightarrow> map_of (cacheEntries w) k = None"
  by (simp add: registryGet_def split: option.splits)

lemma registryGet_not_own:
  "map_of (cacheEntries w) k = None \<Longrightarrow> registryGet w k = inheritedSlot w k"
  by (simp add: registryGet_def)

lemma inheritedSlot_not_own [simp]: "inheritedSlot w k \<noteq> Some (Own e)"
  by (simp add: inheritedSlot_def)

lemma inheritedSlot_frame [simp]:
  "inheritedSlot (w\<lparr>events := ev\<rparr>) k = inheritedSlot w k"
  "inheritedSlot (w\<lparr>allocated := n\<rparr>) k = inheritedSlot w k"
  "inheritedSlot (w\<lparr>cacheEntries := reg\<rparr>) k = inheritedSlot w k"
  by (simp_all add: inheritedSlot_def)

lemma registryGet_frame [simp]:
  "registryGet (w\<lparr>events := ev\<rparr>) k = registryGet w k"
  "registryGet (w\<lparr>allocated := n\<rparr>) k = registryGet w k"
  by (simp_all add: registryGet_def split: option.splits)

lemma inheritedSlot_cases:
  obtains (none) "inheritedSlot w k = None"
    | (object) n where "inheritedSlot w k = Some (InheritedObject n)"
    | (number) "inheritedSlot w k = Some InheritedNumber"
proof (cases "k \<in> set objectPrototypeMembers")
  case True
  then show ?thesis using object [of k] by (simp add: inheritedSlot_def)
next
  case False
  then show ?thesis
    using none number
    by (cases "k = ''referenceCount'' \<and> ''__proto__'' \<in> nanCounted w")
      (simp_all add: inheritedSlot_def)
qed

lemma get_miss: "registryGet w k = None \<Longrightarrow> get (JString k) w = (Inr None, w)"
  by (simp add: get_def Check_typeOf_string_def)

lemma get_hit:
  "map_of (cacheEntries w) k = Some e \<Longrightarrow>
   get (JString k) w =
     (Inr (Some (resourceLoader e)),
      w\<lparr>cacheEntries :=
           AList.update k (e\<lparr>referenceCount := referenceCount e + 1\<rparr>) (cacheEntries w)\<rparr>)"
  by (simp add: get_def Check_typeOf_string_def registryGet_own)

lemma get_inherited_object:
  "registryGet w k = Some (InheritedObject n) \<Longrightarrow>
   get (JString k) w = (Inr None, w\<lparr>nanCounted := insert n (nanCounted w)\<rparr>)"
  by (simp add: get_def Check_typeOf_string_def)

lemma get_inherited_number:
  "registryGet w k = Some InheritedNumber \<Longrightarrow> get (JString k) w = (Inl TypeError, w)"
  by (simp add: get_def Check_typeOf_string_def)

lemma unload_absent:
  "registryGet w (toPropertyKey (cacheKey l)) = None \<Longrightarrow>
   unload (Some l) w =
     (Inl (DeveloperError (''Resource is not in the cache: '' @ toPropertyKey (cacheKey l))), w)"
  by (simp add: unload_def unloadWith_def Check_typeOf_object_def)

lemma unload_zero:
  "map_of (cacheEntries w) (toPropertyKey (cacheKey l)) = Some e \<Longrightarrow> referenceCount e = 0 \<Longrightarrow>
   unload (Some l) w =
     (Inl (DeveloperError ''Cannot unload resource that has no references.''), w)"
  by (simp add: unload_def unloadWith_def Check_typeOf_object_def registryGet_own)

lemma unload_last:
  "map_of (cacheEntries w) (toPropertyKey (cacheKey l)) = Some e \<Longrightarrow> referenceCount e = 1 \<Longrightarrow>
   \<not> keepResident e \<Longrightarrow>
   unload (Some l) w =
     (Inr (), w\<lparr>events := events w @ [DestroyCalled l],
                cacheEntries := AList.delete (toPropertyKey (cacheKey l)) (cacheEntries w)\<rparr>)"
  by (simp add: unload_def unloadWith_def recorded_def Check_typeOf_object_def registryGet_own
      Let_def delete_update_same)

lemma unload_keep:
  "map_of (cacheEntries w) (toPropertyKey (cacheKey l)) = Some e \<Longrightarrow> referenceCount e \<noteq> 0 \<Longrightarrow>
   referenceCount e \<noteq> 1 \<or> keepResident e \<Longrightarrow>
   unload (Some l) w =
     (Inr (), w\<lparr>cacheEntries := AList.update (toPropertyKey (cacheKey l))
                  (e\<lparr>referenceCount := referenceCount e - 1\<rparr>) (cacheEntries w)\<rparr>)"
  by (auto simp add: unload_def unloadWith_def Check_typeOf_object_def registryGet_own Let_def)

lemma unload_inherited_object:
  "registryGet w (toPropertyKey (cacheKey l)) = Some (InheritedObject n) \<Longrightarrow>
   unload (Some l) w = (Inr (), w\<lparr>nanCounted := insert n (nanCounted w)\<rparr>)"
  by (simp add: unload_def unloadWith_def Check_typeOf_object_def)

lemma unload_inherited_number:
  "registryGet w (toPropertyKey (cacheKey l)) = Some InheritedNumber \<Longrightarrow>
   unload (Some l) w = (Inl TypeError, w)"
  by (simp add: unload_def unloadWith_def Check_typeOf_object_def)

lemma load_fresh:
  "cacheKey l = JString k \<Longrightarrow> registryGet w k = None \<Longrightarrow>
   load (Some l) kr w =
     (Inr (),
      w\<lparr>cacheEntries := cacheEntries w @
           [(k, \<lparr>referenceCount = 1, resourceLoader = l, keepResident = defaultValue kr False\<rparr>)],
        events := events w @ [LoadCalled l]\<rparr>)"
  by (simp add: load_def defined_def Let_def Check_typeOf_string_def Check_typeOf_object_def
      update_absent registryGet_none new_CacheEntry_def defaultValue_def)

lemma load_present:
  "cacheKey l = JString k \<Longrightarrow> map_of (cacheEntries w) k = Some e \<Longrightarrow>
   load (Some l) kr w =
     (Inl (DeveloperError (''Resource with this cacheKey is already in the cache: '' @ k)), w)"
  by (simp add: load_def defined_def Let_def Check_typeOf_string_def Check_typeOf_object_def
      registryGet_own)

subsection \<open>The typed constructor \<open>loadExternalBuffer\<close>\<close>

lemma loadExternalBuffer_hit:
  assumes "opt_resource opts = Some r" and "keyOf r = JString k"
    and "map_of (cacheEntries w) k = Some e"
  shows "loadExternalBuffer keyOf opts w =
     (Inr (resourceLoader e),
      w\<lparr>cacheEntries :=
           AList.update k (e\<lparr>referenceCount := referenceCount e + 1\<rparr>) (cacheEntries w)\<rparr>)"
  using assms by (simp add: loadExternalBuffer_def Check_typeOf_object_def get_hit)

lemma loadExternalBuffer_miss:
  assumes "opt_resource opts = Some r" and "keyOf r = JString k"
    and "registryGet w k = None"
  shows "loadExternalBuffer keyOf opts w =
     (Inr \<lparr>loaderId = allocated w, cacheKey = JString k\<rparr>,
      w\<lparr>cacheEntries := cacheEntries w @
           [(k, \<lparr>referenceCount = 1,
                 resourceLoader = \<lparr>loaderId = allocated w, cacheKey = JString k\<rparr>,
                 keepResident = defaultValue (opt_keepResident opts) False\<rparr>)],
        events := events w @ [Constructed \<lparr>loaderId = allocated w, cacheKey = JString k\<rparr>,
                              LoadCalled \<lparr>loaderId = allocated w, cacheKey = JString k\<rparr>],
        allocated := Suc (allocated w)\<rparr>)"
proof -
  let ?l = "\<lparr>loaderId = allocated w, cacheKey = JString k\<rparr>"
  let ?w2 = "w\<lparr>events := events w @ [Constructed ?l], allocated := Suc (allocated w)\<rparr>"
  have n: "new_BufferLoader (JString k) w = (?l, ?w2)"
    by (simp add: new_BufferLoader_def Let_def)
  have g: "registryGet ?w2 k = None"
    using assms(3) by simp
  have l: "load (Some ?l) (Some (defaultValue (opt_keepResident opts) False)) ?w2 =
     (Inr (), ?w2\<lparr>cacheEntries := cacheEntries ?w2 @
        [(k, \<lparr>referenceCount = 1, resourceLoader = ?l,
              keepResident =
                defaultValue (Some (defaultValue (opt_keepResident opts) False)) False\<rparr>)],
        events := events ?w2 @ [LoadCalled ?l]\<rparr>)"
    by (rule load_fresh) (simp_all add: assms(3))
  show ?thesis
    using assms
    by (simp add: loadExternalBuffer_def Check_typeOf_object_def get_miss n l Let_def)
      (simp add: defaultValue_def)
qed

subsection \<open>Repeated calls\<close>


lemma callEach_replicate_same:
  "f x w = (r, w) \<Longrightarrow> callEach f (replicate n x) w = (replicate n r, w)"
  by (induction n) simp_all


text \<open>Once the key is in the registry, every further typed call is a hit.\<close>

lemma loadExternalBuffer_hits:
  assumes "\<forall>opts\<in>set optss. \<exists>r. opt_resource opts = Some r \<and> keyOf r = JString k"
    and "map_of (cacheEntries w) k = Some e"
  shows "callEach (loadExternalBuffer keyOf) optss w =
     (replicate (length optss) (Inr (resourceLoader e)),
      w\<lparr>cacheEntries :=
           AList.update k (e\<lparr>referenceCount := referenceCount e + int (length optss)\<rparr>)
             (cacheEntries w)\<rparr>)"
  using assms
proof (induction optss arbitrary: w e)
  case Nil
  then show ?case by (simp add: update_triv)
next
  case (Cons opts optss)
  from Cons.prems(1) obtain r where r: "opt_resource opts = Some r" "keyOf r = JString k"
    by auto
  let ?e1 = "e\<lparr>referenceCount := referenceCount e + 1\<rparr>"
  let ?w1 = "w\<lparr>cacheEntries := AList.update k ?e1 (cacheEntries w)\<rparr>"
  have step: "loadExternalBuffer keyOf opts w = (Inr (resourceLoader e), ?w1)"
    using r Cons.prems(2) by (rule loadExternalBuffer_hit)
  have p: "map_of (cacheEntries ?w1) k = Some ?e1" by (simp add: update_conv')
  have rest: "\<forall>opts\<in>set optss. \<exists>r. opt_resource opts = Some r \<and> keyOf r = JString k"
    using Cons.prems(1) by simp
  show ?case
    using Cons.IH [OF rest p] step by (simp add: algebra_simps)
qed

text \<open>
  \<open>loadExternalBuffer\<close> called \<open>N \<ge> 1\<close> times with resources that derive to one key,
  which the registry does not answer for at the start: one loader is constructed, in the
  first call, \<open>load()\<close> is called on it once, every call returns it, and the entry ends
  with the reference count \<open>N\<close>.
\<close>

lemma loadExternalBuffer_repeated:
  assumes "optss \<noteq> []"
    and "\<forall>opts\<in>set optss. \<exists>r. opt_resource opts = Some r \<and> keyOf r = JString k"
    and "registryGet w k = None"
  shows "callEach (loadExternalBuffer keyOf) optss w =
     (replicate (length optss) (Inr \<lparr>loaderId = allocated w, cacheKey = JString k\<rparr>),
      w\<lparr>cacheEntries := cacheEntries w @
           [(k, \<lparr>referenceCount = int (length optss),
                 resourceLoader = \<lparr>loaderId = allocated w, cacheKey = JString k\<rparr>,
                 keepResident = defaultValue (opt_keepResident (hd optss)) False\<rparr>)],
        events := events w @ [Constructed \<lparr>loaderId = allocated w, cacheKey = JString k\<rparr>,
                              LoadCalled \<lparr>loaderId = allocated w, cacheKey = JString k\<rparr>],
        allocated := Suc (allocated w)\<rparr>)"
proof -
  obtain opts rest where o: "optss = opts # rest" using assms(1) by (cases optss) auto
  from assms(2) o obtain r where r: "opt_resource opts = Some r" "keyOf r = JString k"
    by auto
  have absent: "map_of (cacheEntries w) k = None" using assms(3) by (rule registryGet_none)
  let ?l = "\<lparr>loaderId = allocated w, cacheKey = JString k\<rparr>"
  let ?e1 = "\<lparr>referenceCount = 1, resourceLoader = ?l,
              keepResident = defaultValue (opt_keepResident opts) False\<rparr>"
  let ?w1 = "w\<lparr>cacheEntries := cacheEntries w @ [(k, ?e1)],
              events := events w @ [Constructed ?l, LoadCalled ?l],
              allocated := Suc (allocated w)\<rparr>"
  have first: "loadExternalBuffer keyOf opts w = (Inr ?l, ?w1)"
    using r assms(3) by (rule loadExternalBuffer_miss)
  have p: "map_of (cacheEntries ?w1) k = Some ?e1" by (simp add: absent map_add_def)
  have others: "\<forall>opts\<in>set rest. \<exists>r. opt_resource opts = Some r \<and> keyOf r = JString k"
    using assms(2) o by simp
  have "callEach (loadExternalBuffer keyOf) rest ?w1 =
     (replicate (length rest) (Inr (resourceLoader ?e1)),
      ?w1\<lparr>cacheEntries :=
           AList.update k (?e1\<lparr>referenceCount := referenceCount ?e1 + int (length rest)\<rparr>)
             (cacheEntries ?w1)\<rparr>)"
    by (rule loadExternalBuffer_hits [OF others p])
  then show ?thesis
    using first o by (simp add: update_appended absent)
qed

subsection \<open>Pinned entries under \<open>get\<close> and \<open>unload\<close>\<close>

lemma perform_pinned:
  assumes "map_of (cacheEntries w) k = Some e" and "keepResident e"
    and "toPropertyKey (cacheKey (resourceLoader e)) = k"
  shows "\<exists>e' evs. map_of (cacheEntries (perform c w)) k = Some e' \<and> keepResident e' \<and>
           resourceLoader e' = resourceLoader e \<and>
           events (perform c w) = events w @ evs \<and>
           DestroyCalled (resourceLoader e) \<notin> set evs"
proof (cases c)
  case (Get key)
  show ?thesis
  proof (cases "Check_typeOf_string key")
    case False
    then have "perform c w = w" using Get by (simp add: get_def)
    then show ?thesis using assms by simp
  next
    case True
    show ?thesis
    proof (cases "map_of (cacheEntries w) (toPropertyKey key)")
      case (Some e0)
      have w': "perform c w = w\<lparr>cacheEntries := AList.update (toPropertyKey key)
                (e0\<lparr>referenceCount := referenceCount e0 + 1\<rparr>) (cacheEntries w)\<rparr>"
        using True Some Get by (simp add: get_def registryGet_own)
      show ?thesis
        unfolding w' using assms Some
        by (cases "toPropertyKey key = k") (auto simp: update_conv')
    next
      case None
      obtain s where s: "key = JString s" using True
        by (cases key) (simp_all add: Check_typeOf_string_def)
      have r: "registryGet w s = inheritedSlot w s"
        using None s by (simp add: registryGet_not_own)
      have "cacheEntries (perform c w) = cacheEntries w \<and> events (perform c w) = events w"
        using Get s r
        by (cases rule: inheritedSlot_cases [of w s])
          (simp_all add: get_miss get_inherited_object get_inherited_number)
      then show ?thesis using assms by simp
    qed
  qed
next
  case (Unload l)
  let ?kl = "toPropertyKey (cacheKey l)"
  show ?thesis
  proof (cases "map_of (cacheEntries w) ?kl")
    case None
    then have r: "registryGet w ?kl = inheritedSlot w ?kl"
      by (simp add: registryGet_not_own)
    have "cacheEntries (perform c w) = cacheEntries w \<and> events (perform c w) = events w"
      using Unload r
      by (cases rule: inheritedSlot_cases [of w ?kl])
        (simp_all add: unload_absent unload_inherited_object unload_inherited_number)
    then show ?thesis using assms by simp
  next
    case (Some e0)
    consider (zero) "referenceCount e0 = 0"
      | (last) "referenceCount e0 = 1" "\<not> keepResident e0"
      | (keep) "referenceCount e0 \<noteq> 0" "referenceCount e0 \<noteq> 1 \<or> keepResident e0"
      by blast
    then show ?thesis
    proof cases
      case zero
      then have "perform c w = w" using Unload Some by (simp add: unload_zero)
      then show ?thesis using assms by simp
    next
      case last
      have ne: "?kl \<noteq> k" using last(2) Some assms(1,2) by auto
      then have nl: "l \<noteq> resourceLoader e" using assms(3) by auto
      have w': "perform c w = w\<lparr>events := events w @ [DestroyCalled l],
                cacheEntries := AList.delete ?kl (cacheEntries w)\<rparr>"
        using Unload unload_last [OF Some last] by simp
      show ?thesis unfolding w' using assms ne nl by (auto simp: delete_conv')
    next
      case keep
      have w': "perform c w = w\<lparr>cacheEntries := AList.update ?kl
                  (e0\<lparr>referenceCount := referenceCount e0 - 1\<rparr>) (cacheEntries w)\<rparr>"
        using Unload unload_keep [OF Some keep] by simp
      show ?thesis
        unfolding w' using assms Some by (cases "?kl = k") (auto simp: update_conv')
    qed
  qed
qed

lemma performAll_pinned:
  assumes "map_of (cacheEntries w) k = Some e" and "keepResident e"
    and "toPropertyKey (cacheKey (resourceLoader e)) = k"
  shows "\<exists>e' evs. map_of (cacheEntries (performAll cs w)) k = Some e' \<and> keepResident e' \<and>
           resourceLoader e' = resourceLoader e \<and>
           events (performAll cs w) = events w @ evs \<and>
           DestroyCalled (resourceLoader e) \<notin> set evs"
  using assms
proof (induction cs arbitrary: w e)
  case Nil
  then show ?case by simp
next
  case (Cons c cs)
  from perform_pinned [OF Cons.prems, of c]
  obtain e1 evs1 where s: "map_of (cacheEntries (perform c w)) k = Some e1" "keepResident e1"
    "resourceLoader e1 = resourceLoader e" "events (perform c w) = events w @ evs1"
    "DestroyCalled (resourceLoader e) \<notin> set evs1" by blast
  have k1: "toPropertyKey (cacheKey (resourceLoader e1)) = k" using s(3) Cons.prems(3) by simp
  from Cons.IH [OF s(1) s(2) k1]
  obtain e2 evs2 where t: "map_of (cacheEntries (performAll cs (perform c w))) k = Some e2"
    "keepResident e2" "resourceLoader e2 = resourceLoader e1"
    "events (performAll cs (perform c w)) = events (perform c w) @ evs2"
    "DestroyCalled (resourceLoader e1) \<notin> set evs2" by blast
  show ?case
    using s t by (intro exI [of _ e2] exI [of _ "evs1 @ evs2"]) simp
qed

subsection \<open>The loop of \<open>clearForSpecs\<close> over loaders that release nothing\<close>

lemma forInKeys_own: "fst ` set (cacheEntries w) \<subseteq> set (forInKeys w)"
  by (auto simp: forInKeys_def Let_def)

lemma clearLoop_recorded_step:
  "clearLoop recorded (k # ks) w =
     (case map_of (cacheEntries w) k of
        None \<Rightarrow> clearLoop recorded ks w
      | Some e \<Rightarrow>
          clearLoop recorded ks
            (w\<lparr>events := events w @ [DestroyCalled (resourceLoader e)],
               cacheEntries := AList.delete k (cacheEntries w)\<rparr>))"
  by (simp add: recorded_def split: option.splits)

lemma clearLoop_returns: "fst (clearLoop recorded ks w) = Inr ()"
  by (induction ks arbitrary: w)
    (simp_all add: clearLoop_recorded_step del: clearLoop.simps(2) split: option.splits)

lemma clearLoop_cacheEntries:
  "fst ` set (cacheEntries w) \<subseteq> set ks \<Longrightarrow> cacheEntries (snd (clearLoop recorded ks w)) = []"
proof (induction ks arbitrary: w)
  case Nil
  then show ?case by simp
next
  case (Cons k ks)
  show ?case
  proof (cases "map_of (cacheEntries w) k")
    case None
    then have "k \<notin> fst ` set (cacheEntries w)" by (simp add: map_of_eq_None_iff)
    then have "fst ` set (cacheEntries w) \<subseteq> set ks" using Cons.prems by auto
    then show ?thesis using None Cons.IH
      by (simp add: clearLoop_recorded_step del: clearLoop.simps(2))
  next
    case (Some e)
    let ?w1 = "w\<lparr>events := events w @ [DestroyCalled (resourceLoader e)],
               cacheEntries := AList.delete k (cacheEntries w)\<rparr>"
    have "fst ` set (cacheEntries ?w1) \<subseteq> set ks"
      using Cons.prems by (auto simp: AList.delete_eq)
    then show ?thesis using Some Cons.IH
      by (simp add: clearLoop_recorded_step del: clearLoop.simps(2))
  qed
qed

lemma clearLoop_events_mono:
  "\<exists>evs. events (snd (clearLoop recorded ks w)) = events w @ evs"
proof (induction ks arbitrary: w)
  case Nil
  then show ?case by simp
next
  case (Cons k ks)
  show ?case
  proof (cases "map_of (cacheEntries w) k")
    case None
    then show ?thesis using Cons.IH
      by (simp add: clearLoop_recorded_step del: clearLoop.simps(2))
  next
    case (Some e)
    let ?w1 = "w\<lparr>events := events w @ [DestroyCalled (resourceLoader e)],
               cacheEntries := AList.delete k (cacheEntries w)\<rparr>"
    from Cons.IH [of ?w1]
    obtain evs where "events (snd (clearLoop recorded ks ?w1)) = events ?w1 @ evs"
      by blast
    then show ?thesis using Some
      by (simp add: clearLoop_recorded_step del: clearLoop.simps(2))
  qed
qed

lemma clearLoop_destroys:
  "map_of (cacheEntries w) k = Some e \<Longrightarrow> k \<in> set ks \<Longrightarrow>
   DestroyCalled (resourceLoader e) \<in>
     set (drop (length (events w)) (events (snd (clearLoop recorded ks w))))"
proof (induction ks arbitrary: w)
  case Nil
  then show ?case by simp
next
  case (Cons k' ks)
  show ?case
  proof (cases "k' = k")
    case True
    let ?w1 = "w\<lparr>events := events w @ [DestroyCalled (resourceLoader e)],
               cacheEntries := AList.delete k (cacheEntries w)\<rparr>"
    obtain evs where "events (snd (clearLoop recorded ks ?w1)) = events ?w1 @ evs"
      using clearLoop_events_mono by blast
    then show ?thesis using True Cons.prems(1)
      by (simp add: clearLoop_recorded_step del: clearLoop.simps(2))
  next
    case False
    then have mem: "k \<in> set ks" using Cons.prems(2) by simp
    show ?thesis
    proof (cases "map_of (cacheEntries w) k'")
      case None
      then show ?thesis using Cons.IH [OF Cons.prems(1) mem]
        by (simp add: clearLoop_recorded_step del: clearLoop.simps(2))
    next
      case (Some e')
      let ?w1 = "w\<lparr>events := events w @ [DestroyCalled (resourceLoader e')],
               cacheEntries := AList.delete k' (cacheEntries w)\<rparr>"
      have p: "map_of (cacheEntries ?w1) k = Some e"
        using False Cons.prems(1) by (simp add: delete_conv')
      from Cons.IH [OF p mem]
      have "DestroyCalled (resourceLoader e) \<in>
              set (drop (Suc (length (events w))) (events (snd (clearLoop recorded ks ?w1))))"
        by simp
      then have "DestroyCalled (resourceLoader e) \<in>
              set (drop (length (events w)) (events (snd (clearLoop recorded ks ?w1))))"
        using set_drop_subset_set_drop [of "length (events w)" "Suc (length (events w))"
            "events (snd (clearLoop recorded ks ?w1))"] by auto
      then show ?thesis using Some
      by (simp add: clearLoop_recorded_step del: clearLoop.simps(2))
    qed
  qed
qed

section \<open>The properties C1 to C10\<close>

text \<open>
  C1. The typed constructor \<open>loadVertexBuffer\<close>, asked for a Draco vertex buffer with
  every field of the request in place, throws in every call, at
  \<open>Check.typeOf.object(draco)\<close>, before a key is derived: \<open>N\<close> such calls construct no
  loader, call no \<open>load()\<close> and leave the registry without an entry, where one loader
  and an entry with the reference count \<open>N\<close> are due. (\<open>loadExternalBuffer\<close> does what
  is due: \<open>loadExternalBuffer_repeated\<close>.)
\<close>

theorem loadVertexBuffer_draco_throws:
  assumes "vb_gltf opts = Some g" and "vb_gltfResource opts = Some gr"
    and "vb_baseResource opts = Some br" and "vb_bufferViewId opts = None"
    and "vb_draco opts = Some d" and "vb_dracoAttributeSemantic opts = Some s"
  shows "callEach (loadVertexBuffer keyOf) (replicate N opts) w =
           (replicate N (Inl (CheckFailed ''[object Object]'')), w)"
proof -
  have "loadVertexBuffer keyOf opts w = (Inl (CheckFailed ''[object Object]''), w)"
    using assms by (simp add: loadVertexBuffer_def Check_typeOf_object_def defined_def Let_def)
  then show ?thesis by (rule callEach_replicate_same)
qed

theorem loadVertexBuffer_draco_throws_witness:
  "callEach (loadVertexBuffer exampleVertexKey) (replicate 3 dracoOptions) emptyWorld =
     (replicate 3 (Inl (CheckFailed ''[object Object]'')), emptyWorld)"
  by (rule loadVertexBuffer_draco_throws [of dracoOptions "()" "()" "()" "()" "''POSITION''"])
    (simp_all add: dracoOptions_def)




text \<open>
  C3. When the key of a loader is already in the registry, \<open>load\<close> of that loader throws
  a \<open>DeveloperError\<close> and leaves the whole state as it was: the entry under the key is
  the first one, unchanged, and no \<open>load()\<close> is called on the second loader.
\<close>

theorem load_duplicate_rejected:
  assumes "cacheKey l2 = JString k" and "map_of (cacheEntries w) k = Some e"
  shows "load (Some l2) kr w =
           (Inl (DeveloperError (''Resource with this cacheKey is already in the cache: '' @ k)), w)
         \<and> map_of (cacheEntries (snd (load (Some l2) kr w))) k = Some e
         \<and> events (snd (load (Some l2) kr w)) = events w"
  using assms by (simp add: load_present)

theorem load_duplicate_rejected_witness:
  "cacheKey loaderA' = JString ''a'' \<and>
   map_of (cacheEntries (snd (load (Some loaderA) None emptyWorld))) ''a''
     = Some (entryOf 1 loaderA False) \<and>
   loaderA' \<noteq> loaderA \<and>
   load (Some loaderA') (Some True) (snd (load (Some loaderA) None emptyWorld)) =
     (Inl (DeveloperError ''Resource with this cacheKey is already in the cache: a''),
      snd (load (Some loaderA) None emptyWorld))"
proof -
  have k: "cacheKey loaderA' = JString ''a''" by (simp add: loaderA'_def)
  have p: "map_of (cacheEntries (snd (load (Some loaderA) None emptyWorld))) ''a''
             = Some (entryOf 1 loaderA False)"
    by (simp add: load_def Let_def Check_typeOf_string_def Check_typeOf_object_def defined_def
        registryGet_def inheritedSlot_def objectPrototypeMembers_def
        new_CacheEntry_def defaultValue_def loaderA_def emptyWorld_def entryOf_def)
  have d: "loaderA' \<noteq> loaderA" by (simp add: loaderA_def loaderA'_def)
  show ?thesis using load_duplicate_rejected [OF k p, of "Some True"] k p d by simp
qed

text \<open>
  C4. In the empty registry, \<open>unload\<close> with a loader whose key is \<open>constructor\<close>, a key
  that no entry has, does not throw: the lookup finds the function \<open>Object\<close> that the
  registry object inherits, the call writes a \<open>referenceCount\<close> on it and returns.
\<close>

theorem unload_unregistered_returns:
  "map_of (cacheEntries emptyWorld) (toPropertyKey (cacheKey loaderC)) = None \<and>
   unload (Some loaderC) emptyWorld =
     (Inr (), \<lparr>cacheEntries = [], events = [], allocated = 0, nanCounted = {''constructor''}\<rparr>)"
  by (simp add: emptyWorld_def loaderC_def unload_def unloadWith_def registryGet_def
      inheritedSlot_def objectPrototypeMembers_def Check_typeOf_object_def)

text \<open>
  C5. An entry that is kept resident, registered under its loader's key, stays in the
  registry with the same loader and the same flag through every sequence of \<open>get\<close> and
  \<open>unload\<close> calls, and none of these calls calls \<open>destroy()\<close> on its loader, whatever
  the reference count falls to. \<open>clearForSpecs\<close> after the sequence, over loaders that
  release nothing, empties the registry and calls \<open>destroy()\<close> on the loader.
\<close>

theorem resident_never_destroyed:
  assumes "map_of (cacheEntries w) k = Some e" and "keepResident e"
    and "toPropertyKey (cacheKey (resourceLoader e)) = k"
  shows "(\<exists>e'. map_of (cacheEntries (performAll cs w)) k = Some e' \<and> keepResident e' \<and>
              resourceLoader e' = resourceLoader e)
         \<and> DestroyCalled (resourceLoader e) \<notin>
              set (drop (length (events w)) (events (performAll cs w)))
         \<and> cacheEntries (snd (clearForSpecs recorded (performAll cs w))) = []
         \<and> DestroyCalled (resourceLoader e) \<in>
              set (drop (length (events (performAll cs w)))
                     (events (snd (clearForSpecs recorded (performAll cs w)))))"
proof -
  let ?w' = "performAll cs w"
  from performAll_pinned [OF assms, of cs]
  obtain e' evs where s: "map_of (cacheEntries ?w') k = Some e'" "keepResident e'"
    "resourceLoader e' = resourceLoader e" "events ?w' = events w @ evs"
    "DestroyCalled (resourceLoader e) \<notin> set evs" by blast
  have a: "\<exists>e'. map_of (cacheEntries ?w') k = Some e' \<and> keepResident e' \<and>
              resourceLoader e' = resourceLoader e"
    using s by blast
  have b: "DestroyCalled (resourceLoader e) \<notin> set (drop (length (events w)) (events ?w'))"
    using s(4,5) by simp
  have c: "cacheEntries (snd (clearForSpecs recorded ?w')) = []"
    unfolding clearForSpecs_def by (rule clearLoop_cacheEntries) (rule forInKeys_own)
  have "k \<in> fst ` set (cacheEntries ?w')"
    using s(1) by (metis map_of_eq_None_iff option.distinct(1))
  then have "k \<in> set (forInKeys ?w')" using forInKeys_own by blast
  then have d: "DestroyCalled (resourceLoader e) \<in>
       set (drop (length (events ?w')) (events (snd (clearForSpecs recorded ?w'))))"
    unfolding clearForSpecs_def using clearLoop_destroys [OF s(1)] s(3) by simp
  show ?thesis using a b c d by blast
qed

theorem resident_never_destroyed_witness:
  "map_of (cacheEntries (performAll pinnedCalls (worldOf [(''a'', entryOf 1 loaderA True)]))) ''a''
     = Some (entryOf 0 loaderA True)
   \<and> DestroyCalled loaderA \<notin>
        set (events (performAll pinnedCalls (worldOf [(''a'', entryOf 1 loaderA True)])))
   \<and> cacheEntries (snd (clearForSpecs recorded
        (performAll pinnedCalls (worldOf [(''a'', entryOf 1 loaderA True)])))) = []
   \<and> DestroyCalled loaderA \<in>
        set (events (snd (clearForSpecs recorded
          (performAll pinnedCalls (worldOf [(''a'', entryOf 1 loaderA True)])))))"
proof -
  let ?w = "worldOf [(''a'', entryOf 1 loaderA True)]"
  have h1: "map_of (cacheEntries ?w) ''a'' = Some (entryOf 1 loaderA True)"
    by (simp add: worldOf_def)
  have h2: "keepResident (entryOf 1 loaderA True)" by (simp add: entryOf_def)
  have h3: "toPropertyKey (cacheKey (resourceLoader (entryOf 1 loaderA True))) = ''a''"
    by (simp add: entryOf_def loaderA_def)
  have l: "resourceLoader (entryOf 1 loaderA True) = loaderA" by (simp add: entryOf_def)
  have ev: "events ?w = []" by (simp add: worldOf_def)
  note t = resident_never_destroyed [OF h1 h2 h3, of pinnedCalls, unfolded l]
  have run: "performAll pinnedCalls ?w = worldOf [(''a'', entryOf 0 loaderA True)]"
    by (simp add: pinnedCalls_def worldOf_def entryOf_def loaderA_def loaderA'_def get_def
        unload_def unloadWith_def registryGet_def Check_typeOf_string_def
        Check_typeOf_object_def Let_def)
  have a: "map_of (cacheEntries (performAll pinnedCalls ?w)) ''a'' = Some (entryOf 0 loaderA True)"
    unfolding run by (simp add: worldOf_def)
  have b: "DestroyCalled loaderA \<notin> set (events (performAll pinnedCalls ?w))"
    using t [THEN conjunct2, THEN conjunct1] by (simp add: ev)
  have c: "cacheEntries (snd (clearForSpecs recorded (performAll pinnedCalls ?w))) = []"
    by (rule t [THEN conjunct2, THEN conjunct2, THEN conjunct1])
  have "DestroyCalled loaderA \<in> set (drop (length (events (performAll pinnedCalls ?w)))
          (events (snd (clearForSpecs recorded (performAll pinnedCalls ?w)))))"
    by (rule t [THEN conjunct2, THEN conjunct2, THEN conjunct2])
  then have d: "DestroyCalled loaderA \<in>
      set (events (snd (clearForSpecs recorded (performAll pinnedCalls ?w))))"
    by (rule in_set_dropD)
  show ?thesis using a b c d by simp
qed

text \<open>
  C6, at the empty string. \<open>get\<close> with the empty string and \<open>load\<close> of a loader
  whose key is the empty string do not throw: in the empty registry \<open>get\<close> returns
  \<open>undefined\<close>, and \<open>load\<close> registers the loader under the empty key and calls
  its \<open>load()\<close>.
\<close>

theorem empty_key_accepted:
  "fst (get (JString '''') emptyWorld) = Inr None \<and>
   load (Some \<lparr>loaderId = 0, cacheKey = JString ''''\<rparr>) None emptyWorld =
     (Inr (),
      \<lparr>cacheEntries = [('''', entryOf 1 \<lparr>loaderId = 0, cacheKey = JString ''''\<rparr> False)],
       events = [LoadCalled \<lparr>loaderId = 0, cacheKey = JString ''''\<rparr>], allocated = 0,
       nanCounted = {}\<rparr>)"
  by (simp add: get_def load_def Check_typeOf_string_def Check_typeOf_object_def defined_def
      registryGet_def inheritedSlot_def objectPrototypeMembers_def
      emptyWorld_def Let_def new_CacheEntry_def defaultValue_def entryOf_def)

text \<open>
  C6. \<open>get\<close> and \<open>load\<close> require the key to be a string: \<open>get\<close> with a value that
  is not a string, and \<open>load\<close> of a loader whose key is not a string, throw the error of
  the failed check at the call and leave the state as it was.
\<close>

theorem string_key_required:
  "(typeof key \<noteq> ''string'' \<longrightarrow> get key w = (Inl (CheckFailed ''cacheKey''), w))
   \<and> (typeof (cacheKey l) \<noteq> ''string'' \<longrightarrow>
        load (Some l) kr w = (Inl (CheckFailed ''options.resourceLoader.cacheKey''), w))"
  by (simp add: get_def load_def Check_typeOf_string_def Check_typeOf_object_def Let_def)

theorem string_key_required_witness:
  "get JUndefined emptyWorld = (Inl (CheckFailed ''cacheKey''), emptyWorld)
   \<and> load (Some \<lparr>loaderId = 0, cacheKey = JNull\<rparr>) None emptyWorld
       = (Inl (CheckFailed ''options.resourceLoader.cacheKey''), emptyWorld)"
  using string_key_required [of JUndefined emptyWorld "\<lparr>loaderId = 0, cacheKey = JNull\<rparr>" None]
  by simp

text \<open>
  C7. The buffer view is registered before the vertex buffer that holds it. \<open>clearForSpecs\<close>
  visits the buffer view first, destroys it and deletes its key; at the vertex buffer,
  \<open>destroy()\<close> releases the buffer view with \<open>unload\<close>, which throws, since the key is
  gone. The loop ends there: \<open>clearForSpecs\<close> throws and the vertex buffer stays in the
  registry.
\<close>

theorem clearForSpecs_throws:
  "cacheEntries dependentWorld =
     [(''bv'', entryOf 2 loaderBV False), (''vb'', entryOf 1 loaderVB False)] \<and>
   clearForSpecs (destroyHolding vertexHolds) dependentWorld =
     (Inl (DeveloperError ''Resource is not in the cache: bv''),
      \<lparr>cacheEntries = [(''vb'', entryOf 1 loaderVB False)],
       events = [LoadCalled loaderBV, LoadCalled loaderVB,
                 DestroyCalled loaderBV, DestroyCalled loaderVB],
       allocated = 0, nanCounted = {}\<rparr>)"
  by (simp add: dependentWorld_def emptyWorld_def loaderBV_def loaderVB_def entryOf_def
      vertexHolds_def destroyHolding_def clearForSpecs_def forInKeys_def isArrayIndex_def
      isDigit_def get_def load_def unloadWith_def registryGet_def inheritedSlot_def
      objectPrototypeMembers_def Check_typeOf_string_def Check_typeOf_object_def defined_def
      new_CacheEntry_def defaultValue_def Let_def)

text \<open>
  C8. In the empty registry, \<open>get\<close> with the key \<open>__proto__\<close>, a key that no entry
  has, returns \<open>undefined\<close> and is not without effect: the lookup finds
  \<open>Object.prototype\<close>, the call writes a \<open>referenceCount\<close> on it, and the registry,
  which answered \<open>undefined\<close> for the key \<open>referenceCount\<close> before, answers \<open>NaN\<close>
  after, so that a \<open>get\<close> of that key throws a \<open>TypeError\<close>.
\<close>

theorem get_unregistered_mutates:
  "map_of (cacheEntries emptyWorld) ''__proto__'' = None \<and>
   get (JString ''__proto__'') emptyWorld =
     (Inr None, \<lparr>cacheEntries = [], events = [], allocated = 0, nanCounted = {''__proto__''}\<rparr>) \<and>
   registryGet emptyWorld ''referenceCount'' = None \<and>
   registryGet (snd (get (JString ''__proto__'') emptyWorld)) ''referenceCount''
     = Some InheritedNumber \<and>
   get (JString ''referenceCount'') emptyWorld = (Inr None, emptyWorld) \<and>
   fst (get (JString ''referenceCount'') (snd (get (JString ''__proto__'') emptyWorld)))
     = Inl TypeError"
  by (simp add: emptyWorld_def get_def registryGet_def inheritedSlot_def
      objectPrototypeMembers_def Check_typeOf_string_def)

text \<open>
  C9. When the entry under the key of \<open>l\<close> has the reference count 1 and is not kept
  resident, \<open>unload(l)\<close> returns, calls \<open>destroy()\<close> on \<open>l\<close>, the argument, and on
  nothing else, and removes the key. So when \<open>l\<close> is not the loader the entry holds, the
  entry's loader leaves the registry without a \<open>destroy()\<close>.
\<close>

theorem unload_destroys_argument:
  assumes "map_of (cacheEntries w) (toPropertyKey (cacheKey l)) = Some e"
    and "referenceCount e = 1" and "\<not> keepResident e"
  shows "fst (unload (Some l) w) = Inr ()
         \<and> events (snd (unload (Some l) w)) = events w @ [DestroyCalled l]
         \<and> map_of (cacheEntries (snd (unload (Some l) w))) (toPropertyKey (cacheKey l)) = None
         \<and> (resourceLoader e \<noteq> l \<longrightarrow>
              DestroyCalled (resourceLoader e) \<notin>
                set (drop (length (events w)) (events (snd (unload (Some l) w)))))"
  using assms by (simp add: unload_last delete_conv')

theorem unload_destroys_argument_witness:
  "unload (Some loaderA') (worldOf [(''a'', entryOf 1 loaderA False)]) =
     (Inr (),
      \<lparr>cacheEntries = [], events = [DestroyCalled loaderA'], allocated = 3, nanCounted = {}\<rparr>)
   \<and> loaderA \<noteq> loaderA'
   \<and> DestroyCalled loaderA \<notin>
       set (events (snd (unload (Some loaderA') (worldOf [(''a'', entryOf 1 loaderA False)]))))"
proof -
  let ?w = "worldOf [(''a'', entryOf 1 loaderA False)]"
  have h1: "map_of (cacheEntries ?w) (toPropertyKey (cacheKey loaderA'))
              = Some (entryOf 1 loaderA False)"
    by (simp add: worldOf_def loaderA'_def)
  have h2: "referenceCount (entryOf 1 loaderA False) = 1" by (simp add: entryOf_def)
  have h3: "\<not> keepResident (entryOf 1 loaderA False)" by (simp add: entryOf_def)
  have d: "loaderA \<noteq> loaderA'" by (simp add: loaderA_def loaderA'_def)
  have u: "unload (Some loaderA') ?w =
     (Inr (),
      \<lparr>cacheEntries = [], events = [DestroyCalled loaderA'], allocated = 3, nanCounted = {}\<rparr>)"
    by (simp add: unload_last [OF h1 h2 h3]) (simp add: worldOf_def loaderA'_def)
  from unload_destroys_argument [OF h1 h2 h3] d
  have "DestroyCalled loaderA \<notin>
          set (drop (length (events ?w)) (events (snd (unload (Some loaderA') ?w))))"
    by (simp add: entryOf_def)
  then have "DestroyCalled loaderA \<notin> set (events (snd (unload (Some loaderA') ?w)))"
    by (simp add: worldOf_def)
  then show ?thesis using u d by simp
qed

text \<open>
  C10. An entry that is kept resident and has the reference count 0 is still there: a
  \<open>get\<close> with its key returns the loader it holds and sets the count to 1, and an
  \<open>unload\<close> with a loader of that key then returns and leads back to the state before the
  \<open>get\<close>, with the entry in place at count 0 and nothing destroyed.
\<close>

theorem resident_entry_reacquired:
  assumes "map_of (cacheEntries w) k = Some e" and "keepResident e" and "referenceCount e = 0"
    and "toPropertyKey (cacheKey l) = k"
  shows "get (JString k) w =
           (Inr (Some (resourceLoader e)),
            w\<lparr>cacheEntries := AList.update k (e\<lparr>referenceCount := 1\<rparr>) (cacheEntries w)\<rparr>)
         \<and> unload (Some l) (snd (get (JString k) w)) = (Inr (), w)"
proof -
  let ?e1 = "e\<lparr>referenceCount := 1\<rparr>"
  let ?w1 = "w\<lparr>cacheEntries := AList.update k ?e1 (cacheEntries w)\<rparr>"
  have g: "get (JString k) w = (Inr (Some (resourceLoader e)), ?w1)"
    using assms(1,3) by (simp add: get_hit)
  have p: "map_of (cacheEntries ?w1) (toPropertyKey (cacheKey l)) = Some ?e1"
    by (simp add: assms(4) update_conv')
  have restored: "?e1\<lparr>referenceCount := referenceCount ?e1 - 1\<rparr> = e"
    using assms(3) by simp
  have "unload (Some l) ?w1 =
      (Inr (), ?w1\<lparr>cacheEntries := AList.update (toPropertyKey (cacheKey l))
                  (?e1\<lparr>referenceCount := referenceCount ?e1 - 1\<rparr>) (cacheEntries ?w1)\<rparr>)"
    using p by (rule unload_keep) (simp_all add: assms(2))
  then have "unload (Some l) ?w1 = (Inr (), w)"
    unfolding restored using assms(1,4) by (simp add: update_triv)
  then show ?thesis using g by simp
qed

theorem resident_entry_reacquired_witness:
  "get (JString ''a'') (worldOf [(''a'', entryOf 0 loaderA True)]) =
     (Inr (Some loaderA), worldOf [(''a'', entryOf 1 loaderA True)])
   \<and> unload (Some loaderA) (snd (get (JString ''a'') (worldOf [(''a'', entryOf 0 loaderA True)]))) =
     (Inr (), worldOf [(''a'', entryOf 0 loaderA True)])"
proof -
  let ?w = "worldOf [(''a'', entryOf 0 loaderA True)]"
  have h1: "map_of (cacheEntries ?w) ''a'' = Some (entryOf 0 loaderA True)"
    by (simp add: worldOf_def)
  have h2: "keepResident (entryOf 0 loaderA True)" by (simp add: entryOf_def)
  have h3: "referenceCount (entryOf 0 loaderA True) = 0" by (simp add: entryOf_def)
  have h4: "toPropertyKey (cacheKey loaderA) = ''a''" by (simp add: loaderA_def)
  have w1: "?w\<lparr>cacheEntries :=
               AList.update ''a'' ((entryOf 0 loaderA True)\<lparr>referenceCount := 1\<rparr>)
                 (cacheEntries ?w)\<rparr> = worldOf [(''a'', entryOf 1 loaderA True)]"
    by (simp add: worldOf_def entryOf_def)
  note t = resident_entry_reacquired [OF h1 h2 h3 h4, unfolded w1]
  have g: "get (JString ''a'') ?w =
             (Inr (Some loaderA), worldOf [(''a'', entryOf 1 loaderA True)])"
    using t [THEN conjunct1] by (simp add: entryOf_def)
  have u: "unload (Some loaderA) (snd (get (JString ''a'') ?w)) = (Inr (), ?w)"
    by (rule t [THEN conjunct2])
  show ?thesis using g u by simp
qed

end
